theory Spec2Isabelle
  imports Main "HOL-Library.AList"
begin

section \<open>Data model\<close>

text \<open>
  The values that end up inside a schema object: \<open>None\<close>, booleans, integers, strings,
  lists and dictionaries with string keys. A dictionary is an association list in
  insertion order, as a Python \<open>dict\<close> iterates; its keys are distinct. Floats are left
  out: no schema value computed by the code below is the result of float arithmetic.
\<close>

datatype json =
    JNull
  | JBool bool
  | JInt int
  | JStr string
  | JList "json list"
  | JObj "(string \<times> json) list"

type_synonym schema = "(string \<times> json) list"

text \<open>
  The annotation objects \<open>create_schema_object_from_annotation\<close> tells apart.
  \<^item> \<open>TStr\<close>, \<open>TInt\<close>, \<open>TFloat\<close>, \<open>TBool\<close>: the classes \<open>str\<close>, \<open>int\<close>, \<open>float\<close>, \<open>bool\<close>,
    the keys of the dictionary \<open>type_dict_\<close> of line 33;
  \<^item> \<open>NoneType\<close>: \<open>type(None)\<close>;
  \<^item> \<open>Dict fs\<close>: a \<open>dict\<close> of name to annotation, or an object with \<open>__annotations__\<close>
    (line 18 replaces it by that dictionary), in insertion order; as the base of an
    \<open>Annotated\<close> or a branch of a \<open>Union\<close> it is a class, since \<open>typing\<close> accepts no
    \<open>dict\<close> there;
  \<^item> \<open>Annotated a md\<close>: \<open>typing.Annotated[a, md]\<close> with \<open>md\<close> a dictionary
    (\<open>args[0]\<close> and \<open>args[1]\<close>);
  \<^item> \<open>Literal vs\<close>: \<open>typing.Literal[...]\<close> with \<open>typing.get_args\<close> giving \<open>vs\<close>;
  \<^item> \<open>Union as\<close>: \<open>typing.Union[...]\<close> with \<open>typing.get_args\<close> giving \<open>as\<close>, in the
    order written (\<open>None\<close> is given as \<open>type(None)\<close>);
  \<^item> \<open>ListOf a\<close>: \<open>typing.List[a]\<close> or \<open>list[a]\<close>, origin \<open>list\<close>;
  \<^item> \<open>Other\<close>: any other hashable object (\<open>bytes\<close>, \<open>typing.Dict[str, int]\<close>, ...),
    which reaches the final \<open>else\<close> of the function;
  \<^item> \<open>OtherUnhashable\<close>: any other object that cannot be hashed, such as
    \<open>typing.Dict[str, Annotated[int, {"minimum": 0}]]\<close>, on which the membership test
    of line 72 raises.
\<close>

datatype annotation =
    TStr
  | TInt
  | TFloat
  | TBool
  | NoneType
  | Dict "(string \<times> annotation) list"
  | Annotated annotation "(string \<times> json) list"
  | Literal "json list"
  | Union "annotation list"
  | ListOf annotation
  | Other
  | OtherUnhashable

datatype error =
    ValueError_unsupported annotation
  | ValueError_registered string
  | KeyError
  | AttributeError
  | TypeError
  | IndexError
  | ValidationError string
  | ArgumentError string

section \<open>Python primitives used by the code\<close>

text \<open>\<open>bool(value)\<close>: the truth value of a Python object.\<close>

fun truthy :: "json \<Rightarrow> bool" where
  "truthy JNull = False"
| "truthy (JBool b) = b"
| "truthy (JInt i) = (i \<noteq> 0)"
| "truthy (JStr s) = (s \<noteq> [])"
| "truthy (JList xs) = (xs \<noteq> [])"
| "truthy (JObj d) = (d \<noteq> [])"

text \<open>\<open>len(value)\<close>: defined on strings, lists and dictionaries, a \<open>TypeError\<close> otherwise.\<close>

fun py_len :: "json \<Rightarrow> error + nat" where
  "py_len (JStr s) = Inr (length s)"
| "py_len (JList xs) = Inr (length xs)"
| "py_len (JObj d) = Inr (length d)"
| "py_len _ = Inl TypeError"

text \<open>
  \<open>value[0]\<close>: the first element of a list, the first character of a string (as a
  string); on a dictionary the key \<open>0\<close> is looked up, and no key of a \<open>JObj\<close> is an
  integer.
\<close>

fun py_item0 :: "json \<Rightarrow> error + json" where
  "py_item0 (JList (x # xs)) = Inr x"
| "py_item0 (JStr (c # cs)) = Inr (JStr [c])"
| "py_item0 (JObj d) = Inl KeyError"
| "py_item0 (JList []) = Inl IndexError"
| "py_item0 (JStr []) = Inl IndexError"
| "py_item0 _ = Inl TypeError"

text \<open>\<open>d[k] = v\<close> on a dictionary: in place when the key is there, appended otherwise.\<close>

abbreviation dict_set :: "string \<Rightarrow> 'v \<Rightarrow> (string \<times> 'v) list \<Rightarrow> (string \<times> 'v) list" where
  "dict_set k v d \<equiv> AList.update k v d"

text \<open>
  \<open>type_dict_ = { str: "string", int: "number", float: "number", bool: "boolean" }\<close>,
  as the lookup of an object that has been hashed.
\<close>

fun type_dict :: "annotation \<Rightarrow> string option" where
  "type_dict TStr = Some ''string''"
| "type_dict TInt = Some ''number''"
| "type_dict TFloat = Some ''number''"
| "type_dict TBool = Some ''boolean''"
| "type_dict _ = None"

text \<open>
  The tests \<open>type_ in type_dict_\<close> of line 39, \<open>arg in type_dict_\<close> of line 61 and
  \<open>annotation in type_dict_\<close> of line 72 hash the object they look up, and \<open>hash\<close>
  raises a \<open>TypeError\<close> on an unhashable one. A
  class is hashable. The aliases of \<open>typing\<close> hash their arguments: an \<open>Annotated\<close>
  hashes its metadata, here a \<open>dict\<close>, so it is never hashable; a \<open>List\<close>, a \<open>Union\<close>
  and a \<open>Literal\<close> are hashable when all their arguments are.
\<close>

fun hashable_value :: "json \<Rightarrow> bool" where
  "hashable_value (JList xs) = False"
| "hashable_value (JObj d) = False"
| "hashable_value _ = True"

fun hashable :: "annotation \<Rightarrow> bool"
  and hashable_all :: "annotation list \<Rightarrow> bool"
where
  "hashable (Annotated type0 annotation_dict) = False"
| "hashable (Literal args) = list_all hashable_value args"
| "hashable (Union args) = hashable_all args"
| "hashable (ListOf type0) = hashable type0"
| "hashable (Dict fs) = True"
| "hashable TStr = True"
| "hashable TInt = True"
| "hashable TFloat = True"
| "hashable TBool = True"
| "hashable NoneType = True"
| "hashable Other = True"
| "hashable OtherUnhashable = False"
| "hashable_all [] = True"
| "hashable_all (arg # rest) = (hashable arg \<and> hashable_all rest)"

section \<open>The schema compiler: \<open>create_schema_object_from_annotation\<close>\<close>

text \<open>
  The loop of lines 44 to 50 over the items of the metadata dictionary of an
  \<open>Annotated\<close>, on the pair of \<open>schema_object\<close> and \<open>required\<close>.
\<close>

fun apply_metadata :: "(string \<times> json) list \<Rightarrow> schema \<times> bool \<Rightarrow> schema \<times> bool" where
  "apply_metadata [] st = st"
| "apply_metadata ((key, v) # rest) (schema_object, required) =
     (if key = ''required'' then apply_metadata rest (schema_object, truthy v)
      else apply_metadata rest
             (dict_set key v schema_object, if key = ''default'' then False else required))"

text \<open>
  Lines 65 and 66, after the loop over the branches of a \<open>Union\<close>:
  \<open>if len(schema_object["type"]) == 1: schema_object["type"] = schema_object["type"][0]\<close>.
\<close>

definition collapse_type :: "schema \<Rightarrow> error + schema" where
  "collapse_type schema_object =
     (case map_of schema_object ''type'' of
        None \<Rightarrow> Inl KeyError
      | Some t \<Rightarrow>
          (case py_len t of
             Inl e \<Rightarrow> Inl e
           | Inr n \<Rightarrow>
               if n = 1 then
                 (case py_item0 t of
                    Inl e \<Rightarrow> Inl e
                  | Inr t0 \<Rightarrow> Inr (dict_set ''type'' t0 schema_object))
               else Inr schema_object))"

text \<open>
  \<open>schema_object["type"].append(name)\<close> of line 62: a \<open>KeyError\<close> without a \<open>type\<close> entry,
  an \<open>AttributeError\<close> when the entry is not a list.
\<close>

definition type_append :: "string \<Rightarrow> schema \<Rightarrow> error + schema" where
  "type_append name schema_object =
     (case map_of schema_object ''type'' of
        None \<Rightarrow> Inl KeyError
      | Some (JList ts) \<Rightarrow> Inr (dict_set ''type'' (JList (ts @ [JStr name])) schema_object)
      | Some _ \<Rightarrow> Inl AttributeError)"

text \<open>
  The function itself. The result is \<open>Inr (schema_object, required)\<close>, or \<open>Inl\<close> the
  exception raised; the membership tests in \<open>type_dict_\<close> raise on an unhashable
  object before they look it up. \<open>dict_loop\<close> is the loop of lines 26 to 30 on the contents of
  \<open>schema_object["properties"]\<close> and \<open>schema_object["required"]\<close> and the variable
  \<open>required\<close>; \<open>union_loop\<close> is the loop of lines 58 to 64 on \<open>schema_object\<close> and
  \<open>required\<close>.
\<close>

fun create_schema_object_from_annotation :: "annotation \<Rightarrow> error + schema \<times> bool"
  and dict_loop :: "(string \<times> annotation) list \<Rightarrow> schema \<times> string list \<times> bool
                      \<Rightarrow> error + schema \<times> string list \<times> bool"
  and union_loop :: "annotation list \<Rightarrow> schema \<times> bool \<Rightarrow> error + schema \<times> bool"
where
  "create_schema_object_from_annotation (Dict fs) =
     (if length fs > 0 then
        (case dict_loop fs ([], [], False) of
           Inl e \<Rightarrow> Inl e
         | Inr (properties, req_list, required) \<Rightarrow>
             Inr ([(''type'', JStr ''object''),
                   (''properties'', JObj properties),
                   (''required'', JList (map JStr req_list))], required))
      else Inr ([], False))"
| "create_schema_object_from_annotation (Annotated type0 annotation_dict) =
     (if \<not> hashable type0 then Inl TypeError
      else
        (case (case type_dict type0 of
                 Some name \<Rightarrow> Inr ([(''type'', JStr name)], False)
               | None \<Rightarrow> create_schema_object_from_annotation type0) of
           Inl e \<Rightarrow> Inl e
         | Inr st \<Rightarrow> Inr (apply_metadata annotation_dict st)))"
| "create_schema_object_from_annotation (Literal args) =
     Inr ([(''enum'', JList args)], True)"
| "create_schema_object_from_annotation (Union args) =
     (case union_loop args ([(''type'', JList [])], False) of
        Inl e \<Rightarrow> Inl e
      | Inr (schema_object, required) \<Rightarrow>
          (case collapse_type schema_object of
             Inl e \<Rightarrow> Inl e
           | Inr schema_object' \<Rightarrow> Inr (schema_object', required)))"
| "create_schema_object_from_annotation (ListOf type0) =
     (case create_schema_object_from_annotation type0 of
        Inl e \<Rightarrow> Inl e
      | Inr (items, required) \<Rightarrow>
          Inr ([(''type'', JStr ''array''), (''items'', JObj items)], required))"
| "create_schema_object_from_annotation TStr = Inr ([(''type'', JStr ''string'')], True)"
| "create_schema_object_from_annotation TInt = Inr ([(''type'', JStr ''number'')], True)"
| "create_schema_object_from_annotation TFloat = Inr ([(''type'', JStr ''number'')], True)"
| "create_schema_object_from_annotation TBool = Inr ([(''type'', JStr ''boolean'')], True)"
| "create_schema_object_from_annotation NoneType = Inl (ValueError_unsupported NoneType)"
| "create_schema_object_from_annotation Other = Inl (ValueError_unsupported Other)"
| "create_schema_object_from_annotation OtherUnhashable = Inl TypeError"
| "dict_loop [] st = Inr st"
| "dict_loop ((key, child_annotation) # rest) (properties, req_list, required) =
     (case create_schema_object_from_annotation child_annotation of
        Inl e \<Rightarrow> Inl e
      | Inr (child, required') \<Rightarrow>
          dict_loop rest
            (dict_set key (JObj child) properties,
             if required' then req_list @ [key] else req_list,
             required'))"
| "union_loop [] st = Inr st"
| "union_loop (arg # rest) (schema_object, required) =
     (if arg = NoneType then union_loop rest (schema_object, False)
      else if \<not> hashable arg then Inl TypeError
      else
        (case type_dict arg of
           Some name \<Rightarrow>
             (case type_append name schema_object of
                Inl e \<Rightarrow> Inl e
              | Inr schema_object' \<Rightarrow> union_loop rest (schema_object', required))
         | None \<Rightarrow>
             (case create_schema_object_from_annotation arg of
                Inl e \<Rightarrow> Inl e
              | Inr st \<Rightarrow> union_loop rest st)))"

section \<open>\<open>ShellFunctionDescriptor\<close>\<close>

text \<open>
  A call of the wrapped callable: \<open>function()\<close> or \<open>function(**kwargs)\<close>. The callable
  itself is a function from the call to the value it returns or the exception it raises.
\<close>

datatype call = NoArguments | Keywords "(string \<times> json) list"

text \<open>
  \<open>signature_parameters\<close> is what \<open>inspect.signature(self.function).parameters\<close> gives:
  in declaration order, each parameter's name, its annotation, and its default
  (\<open>None\<close> for \<open>inspect.Parameter.empty\<close>). Parameter names are distinct.
\<close>

record shell_function_descriptor =
  func :: "call \<Rightarrow> error + json"
  signature_parameters :: "(string \<times> annotation \<times> json option) list"
  description :: string
  validate_schema :: bool
  command_line_function :: bool

text \<open>Lines 96 to 104: the dictionaries \<open>params\<close> and \<open>default_values\<close>.\<close>

fun params :: "(string \<times> annotation \<times> json option) list \<Rightarrow> (string \<times> annotation) list" where
  "params [] = []"
| "params ((name, ann, d) # ps) = (name, ann) # params ps"

fun default_values :: "(string \<times> annotation \<times> json option) list \<Rightarrow> (string \<times> json) list" where
  "default_values [] = []"
| "default_values ((name, ann, None) # ps) = default_values ps"
| "default_values ((name, ann, Some d) # ps) = (name, d) # default_values ps"

text \<open>
  Lines 107 to 109, one round of the loop over \<open>default_values\<close>:
  \<open>schema["properties"][key]["default"] = default_value\<close>, then
  \<open>if key in schema["required"]: schema["required"].remove(key)\<close>.
\<close>

definition default_patch :: "string \<Rightarrow> json \<Rightarrow> schema \<Rightarrow> error + schema" where
  "default_patch key default_value schema =
     (case map_of schema ''properties'' of
        Some (JObj properties) \<Rightarrow>
          (case map_of properties key of
             Some (JObj sub) \<Rightarrow>
               (let schema' = dict_set ''properties''
                      (JObj (dict_set key (JObj (dict_set ''default'' default_value sub)) properties))
                      schema
                in case map_of schema' ''required'' of
                     Some (JList req_list) \<Rightarrow>
                       Inr (if JStr key \<in> set req_list
                            then dict_set ''required'' (JList (remove1 (JStr key) req_list)) schema'
                            else schema')
                   | Some _ \<Rightarrow> Inl TypeError
                   | None \<Rightarrow> Inl KeyError)
           | Some _ \<Rightarrow> Inl TypeError
           | None \<Rightarrow> Inl KeyError)
      | Some _ \<Rightarrow> Inl TypeError
      | None \<Rightarrow> Inl KeyError)"

fun default_loop :: "(string \<times> json) list \<Rightarrow> schema \<Rightarrow> error + schema" where
  "default_loop [] schema = Inr schema"
| "default_loop ((key, default_value) # rest) schema =
     (case default_patch key default_value schema of
        Inl e \<Rightarrow> Inl e
      | Inr schema' \<Rightarrow> default_loop rest schema')"

text \<open>
  \<open>get_args_json_schema\<close>, the value computed at the first call. The source stores it in
  \<open>self._args_json_schema\<close> and returns the stored value afterwards; nothing changes
  it later, so every call returns the value defined here.
\<close>

definition get_args_json_schema :: "shell_function_descriptor \<Rightarrow> error + schema" where
  "get_args_json_schema fd =
     (case create_schema_object_from_annotation (Dict (params (signature_parameters fd))) of
        Inl e \<Rightarrow> Inl e
      | Inr (schema, required) \<Rightarrow> default_loop (default_values (signature_parameters fd)) schema)"

text \<open>
  \<open>has_args\<close>:
  \<open>"required" in schema and len(schema["required"]) > 0\<close>.
\<close>

definition has_args :: "shell_function_descriptor \<Rightarrow> error + bool" where
  "has_args fd =
     (case get_args_json_schema fd of
        Inl e \<Rightarrow> Inl e
      | Inr schema \<Rightarrow>
          (case map_of schema ''required'' of
             None \<Rightarrow> Inr False
           | Some r \<Rightarrow> (case py_len r of Inl e \<Rightarrow> Inl e | Inr n \<Rightarrow> Inr (n > 0))))"

section \<open>\<open>Shell\<close>\<close>

type_synonym shell = "(string \<times> shell_function_descriptor) list"

definition register :: "shell \<Rightarrow> string \<Rightarrow> (call \<Rightarrow> error + json) \<Rightarrow>
    (string \<times> annotation \<times> json option) list \<Rightarrow> string \<Rightarrow> bool \<Rightarrow> bool \<Rightarrow> error + shell" where
  "register functions name f sig descr validate command_line =
     (if name \<in> set (map fst functions) then Inl (ValueError_registered name)
      else Inr (functions @
             [(name, \<lparr>func = f, signature_parameters = sig, description = descr,
                      validate_schema = validate, command_line_function = command_line\<rparr>)]))"

definition get_function_descriptor :: "shell \<Rightarrow> string \<Rightarrow> error + shell_function_descriptor" where
  "get_function_descriptor functions name =
     (case map_of functions name of None \<Rightarrow> Inl KeyError | Some fd \<Rightarrow> Inr fd)"

definition get_function_names :: "shell \<Rightarrow> string list" where
  "get_function_names functions = map fst functions"

definition get_non_command_line_function_names :: "shell \<Rightarrow> string list" where
  "get_non_command_line_function_names functions =
     map fst (filter (\<lambda>(key, function_descriptor). command_line_function function_descriptor = False)
                functions)"

section \<open>The front-ends\<close>

text \<open>
  \<open>jsonschema.validate(instance=..., schema=...)\<close> is a library outside the repository:
  a parameter, giving \<open>None\<close> when the instance is accepted and the message of the
  exception otherwise.
\<close>

type_synonym validator = "json \<Rightarrow> schema \<Rightarrow> string option"

text \<open>
  What a dispatch does: the calls it made to the wrapped callable, in order, and the
  value or the exception it ends with.
\<close>

type_synonym outcome = "call list \<times> (error + json)"

definition call_function :: "shell_function_descriptor \<Rightarrow> call \<Rightarrow> outcome" where
  "call_function fd c = ([c], func fd c)"

text \<open>\<open>function(**v)\<close>: a \<open>TypeError\<close>, before any call, unless \<open>v\<close> is a mapping.\<close>

definition call_expanded :: "shell_function_descriptor \<Rightarrow> json \<Rightarrow> outcome" where
  "call_expanded fd v =
     (case v of JObj kwargs \<Rightarrow> call_function fd (Keywords kwargs) | _ \<Rightarrow> ([], Inl TypeError))"

text \<open>
  \<open>FlaskEndPoint.flask_end_point\<close>, lines 218 to 221, on the decoded request body
  \<open>json_args\<close>. The descriptor is the one the end point was constructed with
  (line 204).
\<close>

definition flask_invoke :: "shell_function_descriptor \<Rightarrow> json \<Rightarrow> outcome" where
  "flask_invoke function_descriptor json_args =
     (case has_args function_descriptor of
        Inl e \<Rightarrow> ([], Inl e)
      | Inr True \<Rightarrow> call_expanded function_descriptor json_args
      | Inr False \<Rightarrow> call_function function_descriptor NoArguments)"

definition flask_end_point :: "validator \<Rightarrow> shell_function_descriptor \<Rightarrow> json \<Rightarrow> outcome" where
  "flask_end_point validate function_descriptor json_args =
     (if validate_schema function_descriptor then
        (case get_args_json_schema function_descriptor of
           Inl e \<Rightarrow> ([], Inl e)
         | Inr schema \<Rightarrow>
             (case validate json_args schema of
                Some msg \<Rightarrow> ([], Inl (ValidationError msg))
              | None \<Rightarrow> flask_invoke function_descriptor json_args))
      else flask_invoke function_descriptor json_args)"

text \<open>
  \<open>CommandLineApp.exec\<close>. The loop of lines 152 to 173 builds one sub-parser for each
  function: \<open>parsers\<close> records, for each name, whether its \<open>args\<close> argument is positional
  (\<open>has_args()\<close>) or the option \<open>--args\<close>. The converter \<open>json_or_json_file\<close> defined in
  the loop body reads the variables \<open>function_descriptor\<close> and \<open>args_json_schema\<close> of
  \<open>exec\<close> when it is called; \<open>closure_vars\<close> is the value of these two variables, which
  each round of the loop assigns.
\<close>

fun exec_loop :: "shell \<Rightarrow> (string \<times> bool) list \<times> (shell_function_descriptor \<times> schema) option
    \<Rightarrow> error + (string \<times> bool) list \<times> (shell_function_descriptor \<times> schema) option" where
  "exec_loop [] st = Inr st"
| "exec_loop ((function_name, function_descriptor) # rest) (parsers, closure_vars) =
     (case get_args_json_schema function_descriptor of
        Inl e \<Rightarrow> Inl e
      | Inr args_json_schema \<Rightarrow>
          (case has_args function_descriptor of
             Inl e \<Rightarrow> Inl e
           | Inr positional \<Rightarrow>
               exec_loop rest
                 (dict_set function_name positional parsers,
                  Some (function_descriptor, args_json_schema))))"

text \<open>
  \<open>json_or_json_file\<close>, lines 166 to 171, on the value \<open>v\<close> decoded from the command-line
  string, with the variables of \<open>exec\<close> as they are when \<open>parse_args\<close> runs.
\<close>

definition json_or_json_file ::
    "validator \<Rightarrow> (shell_function_descriptor \<times> schema) option \<Rightarrow> json \<Rightarrow> error + json" where
  "json_or_json_file validate closure_vars v =
     (case closure_vars of
        None \<Rightarrow> Inr v
      | Some (function_descriptor, args_json_schema) \<Rightarrow>
          if validate_schema function_descriptor then
            (case validate v args_json_schema of
               Some msg \<Rightarrow> Inl (ArgumentError msg)
             | None \<Rightarrow> Inr v)
          else Inr v)"

text \<open>
  \<open>parser.parse_args()\<close> of line 175, on a command line already split into the
  sub-command \<open>function_name\<close> and the decoded value of its \<open>args\<close> argument, if one is
  given. An unknown sub-command and a missing positional argument are errors of
  \<open>argparse\<close>; an absent \<open>--args\<close> leaves \<open>None\<close>.
\<close>

definition parse_args :: "validator \<Rightarrow> (string \<times> bool) list \<Rightarrow>
    (shell_function_descriptor \<times> schema) option \<Rightarrow> string \<Rightarrow> json option \<Rightarrow> error + json" where
  "parse_args validate parsers closure_vars function_name payload =
     (case map_of parsers function_name of
        None \<Rightarrow> Inl (ArgumentError ''invalid choice'')
      | Some positional \<Rightarrow>
          (case payload of
             None \<Rightarrow> if positional then Inl (ArgumentError ''the following arguments are required: args'')
                     else Inr JNull
           | Some v \<Rightarrow> json_or_json_file validate closure_vars v))"

definition exec :: "validator \<Rightarrow> shell \<Rightarrow> string \<Rightarrow> json option \<Rightarrow> outcome" where
  "exec validate functions function_name payload =
     (case exec_loop functions ([], None) of
        Inl e \<Rightarrow> ([], Inl e)
      | Inr (parsers, closure_vars) \<Rightarrow>
          (case parse_args validate parsers closure_vars function_name payload of
             Inl e \<Rightarrow> ([], Inl e)
           | Inr function_args \<Rightarrow>
               (case get_function_descriptor functions function_name of
                  Inl e \<Rightarrow> ([], Inl e)
                | Inr function_descriptor \<Rightarrow>
                    if function_args \<noteq> JNull then call_expanded function_descriptor function_args
                    else call_function function_descriptor NoArguments)))"

section \<open>Example operations\<close>

text \<open>
  \<open>def identity_x(x: int = 0): return x\<close>, an operation whose only parameter has a
  default; any other keyword is a \<open>TypeError\<close> of the call.
\<close>

fun identity_x :: "call \<Rightarrow> error + json" where
  "identity_x NoArguments = Inr (JInt 0)"
| "identity_x (Keywords [(k, v)]) = (if k = ''x'' then Inr v else Inl TypeError)"
| "identity_x (Keywords kwargs) = Inl TypeError"

text \<open>
  Its descriptor, and the descriptor of \<open>def required_x(x: int): return x\<close>, whose
  parameter has no default; both are registered with \<open>validate_schema=True\<close> and
  \<open>command_line_function=False\<close>, so that the HTTP front-end serves them (line 199) as
  the command line does (line 152).
\<close>

definition optional_x_descriptor :: shell_function_descriptor where
  "optional_x_descriptor =
     \<lparr>func = identity_x, signature_parameters = [(''x'', TInt, Some (JInt 0))],
      description = ''identity'', validate_schema = True, command_line_function = False\<rparr>"

definition required_x_descriptor :: shell_function_descriptor where
  "required_x_descriptor =
     \<lparr>func = identity_x, signature_parameters = [(''x'', TInt, None)],
      description = ''identity'', validate_schema = True, command_line_function = False\<rparr>"

text \<open>A validator that accepts every instance.\<close>

definition accept_all :: validator where
  "accept_all instance schema = None"

section \<open>The loops of the compiler\<close>

text \<open>The keys of \<open>type_dict_\<close> are classes, so they are hashable.\<close>

lemma hashable_primitive:
  "type_dict a = Some name \<Longrightarrow> hashable a"
  by (cases a) simp_all

lemma apply_metadata_append:
  "apply_metadata (xs @ ys) st = apply_metadata ys (apply_metadata xs st)"
  by (induction xs st rule: apply_metadata.induct) simp_all

lemma apply_metadata_no_required:
  "''required'' \<notin> fst ` set md \<Longrightarrow> snd (apply_metadata md (s, False)) = False"
  by (induction md arbitrary: s) auto

lemma apply_metadata_default:
  assumes "''required'' \<notin> fst ` set post"
  shows "snd (apply_metadata ((''default'', dv) # post) st) = False"
proof -
  obtain s r where st: "st = (s, r)" by (cases st)
  show ?thesis using assms by (simp add: st apply_metadata_no_required)
qed

lemma union_loop_append:
  "union_loop (xs @ ys) st =
     (case union_loop xs st of Inl e \<Rightarrow> Inl e | Inr st' \<Rightarrow> union_loop ys st')"
proof (induction xs arbitrary: st)
  case Nil
  show ?case by simp
next
  case (Cons a xs)
  obtain s r where st: "st = (s, r)" by (cases st)
  show ?case
    by (simp add: st Cons.IH split: option.split sum.split)
qed

text \<open>
  Over branches that are primitives or the absence marker, the loop appends one name for
  each primitive to the \<open>type\<close> list, and the marker clears \<open>required\<close>.
\<close>

lemma union_loop_primitives:
  assumes "\<forall>a\<in>set xs. a = NoneType \<or> type_dict a \<noteq> None"
      and "map_of so ''type'' = Some (JList ts)"
  shows "union_loop xs (so, r) =
           Inr (dict_set ''type'' (JList (ts @ map JStr (List.map_filter type_dict xs))) so,
                if NoneType \<in> set xs then False else r)"
  using assms
proof (induction xs arbitrary: so ts r)
  case Nil
  then show ?case by (simp add: update_triv)
next
  case (Cons a xs)
  show ?case
  proof (cases "a = NoneType")
    case True
    with Cons.prems Cons.IH [of so ts False] show ?thesis
      by simp
  next
    case False
    with Cons.prems obtain name where name: "type_dict a = Some name" by auto
    from name have ha: "hashable a" by (rule hashable_primitive)
    let ?so = "dict_set ''type'' (JList (ts @ [JStr name])) so"
    have ap: "type_append name so = Inr ?so"
      using Cons.prems(2) by (simp add: type_append_def)
    have m: "map_of ?so ''type'' = Some (JList (ts @ [JStr name]))"
      by (simp add: update_conv')
    have "union_loop xs (?so, r) =
            Inr (dict_set ''type''
                   (JList ((ts @ [JStr name]) @ map JStr (List.map_filter type_dict xs))) ?so,
                 if NoneType \<in> set xs then False else r)"
      using Cons.prems(1) by (intro Cons.IH [OF _ m]) simp
    then show ?thesis
      using False name ha ap by simp
  qed
qed

lemma union_of_primitives:
  assumes "\<forall>a\<in>set args. a = NoneType \<or> type_dict a \<noteq> None"
  shows "union_loop args ([(''type'', JList [])], False) =
           Inr ([(''type'', JList (map JStr (List.map_filter type_dict args)))], False)"
proof -
  have "map_of [(''type'', JList [])] ''type'' = Some (JList ([]::json list))" by simp
  from union_loop_primitives [OF assms this, of False] show ?thesis by simp
qed

lemma union_loop_markers:
  assumes "\<forall>a\<in>set post. a = NoneType"
  shows "union_loop post (s, r) = Inr (s, if post = [] then r else False)"
  using assms by (induction post arbitrary: r) auto

lemma collapse_type_list:
  "collapse_type [(''type'', JList ts)] =
     Inr [(''type'', if length ts = 1 then hd ts else JList ts)]"
  by (cases ts) (auto simp: collapse_type_def)

lemma collapse_type_entry:
  assumes "map_of sb ''type'' = Some t" and "(\<exists>s. t = JStr s) \<or> (\<exists>ts. t = JList ts)"
  shows "collapse_type sb =
           Inr (case t of JList ts \<Rightarrow> if length ts = 1 then dict_set ''type'' (hd ts) sb else sb
                | _ \<Rightarrow> sb)"
proof -
  from assms(2) consider s where "t = JStr s" | ts where "t = JList ts" by blast
  then show ?thesis
  proof cases
    case 1
    show ?thesis
    proof (cases "length s = 1")
      case True
      then obtain c where s: "s = [c]" by (cases s) auto
      with assms(1) 1 have "dict_set ''type'' (JStr [c]) sb = sb"
        by (intro update_triv) simp
      with assms(1) 1 s show ?thesis by (simp add: collapse_type_def)
    next
      case False
      with assms(1) 1 show ?thesis by (simp add: collapse_type_def)
    qed
  next
    case 2
    with assms(1) show ?thesis by (cases ts) (simp_all add: collapse_type_def)
  qed
qed

lemma dict_loop_last:
  assumes "dict_loop fs st = Inr (properties, req_list, required)" and "fs \<noteq> []"
  shows "\<exists>s. create_schema_object_from_annotation (snd (last fs)) = Inr (s, required)"
  using assms
proof (induction fs arbitrary: st)
  case Nil
  then show ?case by simp
next
  case (Cons a fs)
  obtain k c where a: "a = (k, c)" by (cases a)
  obtain p q r where st: "st = (p, q, r)" by (cases st)
  from Cons.prems(1) obtain child r' where
    c: "create_schema_object_from_annotation c = Inr (child, r')" and
    rest: "dict_loop fs (dict_set k (JObj child) p, if r' then q @ [k] else q, r')
             = Inr (properties, req_list, required)"
    by (auto simp: a st split: sum.splits)
  show ?case
  proof (cases "fs = []")
    case True
    with rest c show ?thesis by (simp add: a)
  next
    case False
    with Cons.IH [OF rest] show ?thesis by simp
  qed
qed

text \<open>
  The names the loop appends to \<open>required\<close> are those of the fields whose child compiled
  with the verdict \<open>True\<close>, in field order.
\<close>

lemma dict_loop_required:
  assumes "dict_loop fs (p, q, r) = Inr (properties, req_list, required)"
  shows "req_list = q @ map fst (filter
           (\<lambda>(k, c). \<exists>s. create_schema_object_from_annotation c = Inr (s, True)) fs)"
  using assms
proof (induction fs arbitrary: p q r)
  case Nil
  then show ?case by simp
next
  case (Cons a fs)
  obtain k c where a: "a = (k, c)" by (cases a)
  from Cons.prems obtain child r' where
    c: "create_schema_object_from_annotation c = Inr (child, r')" and
    rest: "dict_loop fs (dict_set k (JObj child) p, if r' then q @ [k] else q, r')
             = Inr (properties, req_list, required)"
    by (auto simp: a split: sum.splits)
  from Cons.IH [OF rest] c show ?case
    by (cases r') (simp_all add: a)
qed

lemma dict_loop_keys:
  assumes "dict_loop fs (p, q, r) = Inr (properties, req_list, required)"
  shows "fst ` set properties = fst ` set p \<union> fst ` set fs"
  using assms
proof (induction fs arbitrary: p q r)
  case Nil
  then show ?case by simp
next
  case (Cons a fs)
  obtain k c where a: "a = (k, c)" by (cases a)
  from Cons.prems obtain child r' where
    rest: "dict_loop fs (dict_set k (JObj child) p, if r' then q @ [k] else q, r')
             = Inr (properties, req_list, required)"
    by (auto simp: a split: sum.splits)
  from Cons.IH [OF rest] show ?case
    by (auto simp: a dom_update)
qed

lemma dict_compile_shape:
  assumes "create_schema_object_from_annotation (Dict fs) = Inr (schema, required)"
      and "fs \<noteq> []"
  shows "\<exists>properties req_list.
           dict_loop fs ([], [], False) = Inr (properties, req_list, required) \<and>
           schema = [(''type'', JStr ''object''), (''properties'', JObj properties),
                     (''required'', JList (map JStr req_list))]"
  using assms by (auto split: sum.splits)

text \<open>A record compiles when the annotation of each of its fields does.\<close>

lemma dict_loop_returns:
  assumes "\<forall>(k, c)\<in>set fs. \<exists>st. create_schema_object_from_annotation c = Inr st"
  shows "\<exists>st'. dict_loop fs st = Inr st'"
  using assms
proof (induction fs arbitrary: st)
  case Nil
  have "dict_loop [] st = Inr st" by simp
  then show ?case by (rule exI)
next
  case (Cons a fs)
  obtain k c where a: "a = (k, c)" by (cases a)
  obtain p q r where st: "st = (p, q, r)" by (cases st)
  from Cons.prems obtain child r' where
    c: "create_schema_object_from_annotation c = Inr (child, r')"
    by (auto simp: a)
  from Cons.prems have "\<forall>(k, c)\<in>set fs. \<exists>st. create_schema_object_from_annotation c = Inr st"
    by simp
  from Cons.IH [OF this] show ?case by (simp add: a st c)
qed

lemma record_compiles:
  assumes "\<forall>(k, c)\<in>set fs. \<exists>st. create_schema_object_from_annotation c = Inr st"
  shows "\<exists>st. create_schema_object_from_annotation (Dict fs) = Inr st"
proof (cases "fs = []")
  case True
  then have "create_schema_object_from_annotation (Dict fs) = Inr ([], False)" by simp
  then show ?thesis by (rule exI)
next
  case False
  from dict_loop_returns [OF assms, of "([], [], False)"] obtain p q r where
    "dict_loop fs ([], [], False) = Inr (p, q, r)" by (metis prod_cases3)
  with False show ?thesis by simp
qed

section \<open>The loop of the command-line front-end\<close>

lemma has_args_schema:
  assumes "has_args fd = Inr b"
  shows "\<exists>schema. get_args_json_schema fd = Inr schema"
  using assms by (auto simp: has_args_def split: sum.splits)

lemma exec_loop_parsers_other:
  assumes "exec_loop fs (ps, cv) = Inr (ps', cv')" and "name \<notin> fst ` set fs"
  shows "map_of ps' name = map_of ps name"
  using assms
proof (induction fs arbitrary: ps cv)
  case Nil
  then show ?case by simp
next
  case (Cons a fs)
  obtain n d where a: "a = (n, d)" by (cases a)
  from Cons.prems(1) obtain schema positional where
    rest: "exec_loop fs (dict_set n positional ps, Some (d, schema)) = Inr (ps', cv')"
    by (auto simp: a split: sum.splits)
  from Cons.prems(2) have "name \<noteq> n" and "name \<notin> fst ` set fs" by (auto simp: a)
  with Cons.IH [OF rest] show ?case by (simp add: update_conv')
qed

text \<open>Each sub-parser takes \<open>args\<close> as a positional exactly when its function \<open>has_args\<close>.\<close>

lemma exec_loop_parsers:
  assumes "exec_loop fs (ps, cv) = Inr (ps', cv')"
      and "distinct (map fst fs)" and "(name, fd) \<in> set fs"
  shows "\<exists>positional. has_args fd = Inr positional \<and> map_of ps' name = Some positional"
  using assms
proof (induction fs arbitrary: ps cv)
  case Nil
  then show ?case by simp
next
  case (Cons a fs)
  obtain n d where a: "a = (n, d)" by (cases a)
  from Cons.prems(1) obtain schema positional where
    h: "has_args d = Inr positional" and
    rest: "exec_loop fs (dict_set n positional ps, Some (d, schema)) = Inr (ps', cv')"
    by (auto simp: a split: sum.splits)
  show ?case
  proof (cases "(name, fd) = a")
    case True
    with Cons.prems(2) have "name \<notin> fst ` set fs" by (auto simp: a)
    from exec_loop_parsers_other [OF rest this] True h show ?thesis
      by (simp add: a update_conv')
  next
    case False
    with Cons.prems have "distinct (map fst fs)" and "(name, fd) \<in> set fs" by auto
    from Cons.IH [OF rest this] show ?thesis .
  qed
qed

text \<open>
  The converter reads the descriptor and the schema of the function registered last:
  after the loop, \<open>closure_vars\<close> holds the last entry of the shell.
\<close>

lemma exec_loop_closure_vars:
  assumes "exec_loop fs (ps, cv) = Inr (ps', cv')" and "fs \<noteq> []"
  shows "\<exists>schema. get_args_json_schema (snd (last fs)) = Inr schema \<and>
           cv' = Some (snd (last fs), schema)"
  using assms
proof (induction fs arbitrary: ps cv)
  case Nil
  then show ?case by simp
next
  case (Cons a fs)
  obtain n d where a: "a = (n, d)" by (cases a)
  from Cons.prems(1) obtain schema positional where
    g: "get_args_json_schema d = Inr schema" and
    rest: "exec_loop fs (dict_set n positional ps, Some (d, schema)) = Inr (ps', cv')"
    by (auto simp: a split: sum.splits)
  show ?case
  proof (cases "fs = []")
    case True
    with rest g show ?thesis by (simp add: a)
  next
    case False
    with Cons.IH [OF rest] show ?thesis by simp
  qed
qed

section \<open>The front-ends and the validation step\<close>

lemma flask_end_point_valid:
  assumes "validate_schema fd \<longrightarrow>
             (\<forall>schema. get_args_json_schema fd = Inr schema \<longrightarrow> validate json_args schema = None)"
      and "has_args fd = Inr b"
  shows "flask_end_point validate fd json_args = flask_invoke fd json_args"
proof -
  from has_args_schema [OF assms(2)] obtain schema where
    s: "get_args_json_schema fd = Inr schema" by blast
  with assms(1) show ?thesis by (simp add: flask_end_point_def)
qed

text \<open>
  The HTTP end point is constructed with its own descriptor: an instance its validator
  rejects is never passed on.
\<close>

lemma flask_end_point_validation_error:
  assumes "validate_schema fd" and "get_args_json_schema fd = Inr schema"
      and "validate json_args schema = Some msg"
  shows "flask_end_point validate fd json_args = ([], Inl (ValidationError msg))"
  using assms by (simp add: flask_end_point_def)

lemma exec_payload:
  assumes loop: "exec_loop functions ([], None) = Inr (parsers, closure_vars)"
      and keys: "distinct (map fst functions)"
      and fd: "(function_name, fd) \<in> set functions"
      and conv: "json_or_json_file validate closure_vars (JObj kwargs) = Inr (JObj kwargs)"
  shows "exec validate functions function_name (Some (JObj kwargs)) =
           ([Keywords kwargs], func fd (Keywords kwargs))"
proof -
  from exec_loop_parsers [OF loop keys fd] obtain positional where
    p: "map_of parsers function_name = Some positional" by blast
  from keys fd have m: "map_of functions function_name = Some fd" by simp
  show ?thesis
    by (simp add: exec_def loop parse_args_def p conv get_function_descriptor_def m
        call_expanded_def call_function_def)
qed

lemma exec_no_payload:
  assumes loop: "exec_loop functions ([], None) = Inr (parsers, closure_vars)"
      and keys: "distinct (map fst functions)"
      and fd: "(function_name, fd) \<in> set functions"
      and h: "has_args fd = Inr False"
  shows "exec validate functions function_name None = ([NoArguments], func fd NoArguments)"
proof -
  from exec_loop_parsers [OF loop keys fd] h have
    p: "map_of parsers function_name = Some False" by auto
  from keys fd have m: "map_of functions function_name = Some fd" by simp
  show ?thesis
    by (simp add: exec_def loop parse_args_def p get_function_descriptor_def m call_function_def)
qed

text \<open>
  On the command line a payload the validator rejects stops the dispatch when the
  function is the one registered last, whose descriptor and schema the converter reads.
\<close>

lemma exec_validation_error_last:
  assumes loop: "exec_loop fs ([], None) = Inr (parsers, closure_vars)"
      and ne: "fs \<noteq> []" and keys: "distinct (map fst fs)"
      and last: "last fs = (function_name, fd)"
      and flag: "validate_schema fd"
      and schema: "get_args_json_schema fd = Inr schema"
      and invalid: "validate v schema = Some msg"
  shows "exec validate fs function_name (Some v) = ([], Inl (ArgumentError msg))"
proof -
  from exec_loop_closure_vars [OF loop ne] last schema have
    cv: "closure_vars = Some (fd, schema)" by simp
  from ne last have mem: "(function_name, fd) \<in> set fs" by (metis last_in_set)
  from exec_loop_parsers [OF loop keys mem] obtain positional where
    p: "map_of parsers function_name = Some positional" by blast
  show ?thesis
    by (simp add: exec_def loop parse_args_def p cv json_or_json_file_def flag invalid)
qed

section \<open>Claims about \<open>Annotated\<close>\<close>

text \<open>
  C1, as stated, fails: with the \<open>default\<close> key declared before \<open>required: true\<close>,
  \<open>Annotated[int, {"default": 0, "required": True}]\<close> compiles with the verdict
  \<open>True\<close>, since the \<open>required\<close> key is the last to assign the variable.
\<close>

theorem annotated_required_after_default_counterexample:
  "create_schema_object_from_annotation
     (Annotated TInt [(''default'', JInt 0), (''required'', JBool True)]) =
   Inr ([(''type'', JStr ''number''), (''default'', JInt 0)], True)"
  by simp

text \<open>
  An unhashable base stops the function at line 39, before any metadata is read:
  \<open>Annotated[List[Annotated[int, {"minimum": 0}]], {"required": True, "default": []}]\<close>
  raises the \<open>TypeError\<close> of \<open>hash\<close>, although its base compiles on its own.
\<close>

lemma annotated_unhashable_base_type_error:
  "create_schema_object_from_annotation (ListOf (Annotated TInt [(''minimum'', JInt 0)])) =
     Inr ([(''type'', JStr ''array''),
           (''items'', JObj [(''type'', JStr ''number''), (''minimum'', JInt 0)])], False) \<and>
   create_schema_object_from_annotation
     (Annotated (ListOf (Annotated TInt [(''minimum'', JInt 0)]))
        [(''required'', JBool True), (''default'', JList [])]) = Inl TypeError"
  by simp

text \<open>
  C1, amended: for every \<open>Annotated\<close> whose metadata dictionary declares a \<open>required\<close>
  key (whatever its value) and, after it, a \<open>default\<close> key, and whose base is hashable
  (it holds no \<open>Annotated\<close> with a dictionary of metadata) and is a primitive or
  compiles, the function returns with the verdict \<open>False\<close>.
\<close>

theorem annotated_default_after_required:
  assumes keys: "distinct (map fst annotation_dict)"
      and order: "annotation_dict = pre @ (''required'', rv) # mid @ (''default'', dv) # post"
      and hash: "hashable type0"
      and base: "(\<exists>name. type_dict type0 = Some name) \<or>
                 (\<exists>st. create_schema_object_from_annotation type0 = Inr st)"
  shows "\<exists>s. create_schema_object_from_annotation (Annotated type0 annotation_dict) =
               Inr (s, False)"
proof -
  from keys order have nr: "''required'' \<notin> fst ` set post" by auto
  from base obtain st where st:
    "(case type_dict type0 of
        Some name \<Rightarrow> Inr ([(''type'', JStr name)], False)
      | None \<Rightarrow> create_schema_object_from_annotation type0) = Inr st"
    by (cases "type_dict type0") auto
  have split: "annotation_dict = (pre @ (''required'', rv) # mid) @ (''default'', dv) # post"
    using order by simp
  have "snd (apply_metadata annotation_dict st) = False"
    unfolding split apply_metadata_append by (rule apply_metadata_default [OF nr])
  then have "apply_metadata annotation_dict st = (fst (apply_metadata annotation_dict st), False)"
    by (metis prod.collapse)
  moreover have "create_schema_object_from_annotation (Annotated type0 annotation_dict) =
      Inr (apply_metadata annotation_dict st)"
    by (simp only: create_schema_object_from_annotation.simps st sum.case hash
        not_True_eq_False if_False)
  ultimately show ?thesis
    by (intro exI [of _ "fst (apply_metadata annotation_dict st)"]) simp
qed

text \<open>
  Witness for C1: \<open>Annotated[int, {"required": True, "default": 0}]\<close>.
\<close>

theorem annotated_default_after_required_witness:
  "distinct (map fst [(''required'', JBool True), (''default'', JInt 0)]) \<and>
   [(''required'', JBool True), (''default'', JInt 0)] =
     [] @ (''required'', JBool True) # [] @ (''default'', JInt 0) # [] \<and>
   hashable TInt \<and>
   ((\<exists>name. type_dict TInt = Some name) \<or>
    (\<exists>st. create_schema_object_from_annotation TInt = Inr st)) \<and>
   (\<exists>s. create_schema_object_from_annotation
          (Annotated TInt [(''required'', JBool True), (''default'', JInt 0)]) = Inr (s, False))"
proof -
  have d: "distinct (map fst [(''required'', JBool True), (''default'', JInt 0)])"
    by simp
  have o: "[(''required'', JBool True), (''default'', JInt 0)] =
             [] @ (''required'', JBool True) # [] @ (''default'', JInt 0) # []"
    by simp
  have h: "hashable TInt" by simp
  have b: "(\<exists>name. type_dict TInt = Some name) \<or>
           (\<exists>st. create_schema_object_from_annotation TInt = Inr st)"
    by simp
  from annotated_default_after_required [OF d o h b] d o h b show ?thesis by (intro conjI)
qed

section \<open>Claims about \<open>Union\<close>\<close>

text \<open>
  C2, as stated, fails: in \<open>Union[None, List[int]]\<close> the absence marker comes first,
  and the branch \<open>List[int]\<close> after it assigns its own verdict \<open>True\<close>.
\<close>

theorem union_marker_first_counterexample:
  "create_schema_object_from_annotation (Union [NoneType, ListOf TInt]) =
     Inr ([(''type'', JStr ''array''), (''items'', JObj [(''type'', JStr ''number'')])], True)"
  by (simp add: collapse_type_def)

text \<open>
  C2, amended: for every \<open>Union\<close> in which only primitive branches follow the last
  absence marker (as in \<open>Optional[X]\<close>, where the marker is last), every result the
  function returns has the verdict \<open>False\<close>; and it does return, with \<open>False\<close>, when the
  branches before the marker are primitives or markers too.
\<close>

theorem union_marker_last_not_required:
  assumes args: "args = pre @ NoneType # post"
      and post: "\<forall>a\<in>set post. type_dict a \<noteq> None"
  shows "(create_schema_object_from_annotation (Union args) = Inr (s, r) \<longrightarrow> r = False) \<and>
         ((\<forall>a\<in>set pre. a = NoneType \<or> type_dict a \<noteq> None) \<longrightarrow>
            (\<exists>s'. create_schema_object_from_annotation (Union args) = Inr (s', False)))"
proof
  show "create_schema_object_from_annotation (Union args) = Inr (s, r) \<longrightarrow> r = False"
  proof
    assume c: "create_schema_object_from_annotation (Union args) = Inr (s, r)"
    then obtain so where l: "union_loop args ([(''type'', JList [])], False) = Inr (so, r)"
      by (auto split: sum.splits)
    from l obtain s1 r1 where
      l1: "union_loop pre ([(''type'', JList [])], False) = Inr (s1, r1)" and
      l2: "union_loop (NoneType # post) (s1, r1) = Inr (so, r)"
      unfolding args union_loop_append by (auto split: sum.splits)
    from l2 have l3: "union_loop post (s1, False) = Inr (so, r)" by simp
    have "\<And>s1. union_loop post (s1, False) = Inr (so, r) \<Longrightarrow> r = False"
      using post
    proof (induction post)
      case Nil
      then show ?case by simp
    next
      case (Cons a post)
      then show ?case by (auto split: sum.splits option.splits if_splits)
    qed
    from this [OF l3] show "r = False" .
  qed
  show "(\<forall>a\<in>set pre. a = NoneType \<or> type_dict a \<noteq> None) \<longrightarrow>
            (\<exists>s'. create_schema_object_from_annotation (Union args) = Inr (s', False))"
  proof
    assume "\<forall>a\<in>set pre. a = NoneType \<or> type_dict a \<noteq> None"
    with post have "\<forall>a\<in>set args. a = NoneType \<or> type_dict a \<noteq> None"
      by (auto simp: args)
    from union_of_primitives [OF this] show
      "\<exists>s'. create_schema_object_from_annotation (Union args) = Inr (s', False)"
      by (simp add: collapse_type_list)
  qed
qed

text \<open>
  Witness for C2: \<open>Union[int, None, str]\<close>, which compiles to
  \<open>{"type": ["number", "string"]}\<close> with the verdict \<open>False\<close>.
\<close>

theorem union_marker_last_not_required_witness:
  "[TInt, NoneType, TStr] = [TInt] @ NoneType # [TStr] \<and>
   list_all (\<lambda>a. type_dict a \<noteq> None) [TStr] \<and>
   create_schema_object_from_annotation (Union [TInt, NoneType, TStr]) =
     Inr ([(''type'', JList [JStr ''number'', JStr ''string''])], False) \<and>
   list_all (\<lambda>a. a = NoneType \<or> type_dict a \<noteq> None) [TInt] \<and>
   (\<exists>s'. create_schema_object_from_annotation (Union [TInt, NoneType, TStr]) = Inr (s', False))"
proof -
  have a: "[TInt, NoneType, TStr] = [TInt] @ NoneType # [TStr]" by simp
  have p: "\<forall>a\<in>set [TStr]. type_dict a \<noteq> None" by simp
  have c: "create_schema_object_from_annotation (Union [TInt, NoneType, TStr]) =
     Inr ([(''type'', JList [JStr ''number'', JStr ''string''])], False)"
    by (simp add: type_append_def collapse_type_def)
  have q: "\<forall>a\<in>set [TInt]. a = NoneType \<or> type_dict a \<noteq> None" by simp
  from union_marker_last_not_required [OF a p] q
  have "\<exists>s'. create_schema_object_from_annotation (Union [TInt, NoneType, TStr]) = Inr (s', False)"
    by blast
  with a p c q show ?thesis by (simp only: list_all_iff simp_thms)
qed

text \<open>
  C3, as stated, fails: compilation does not return for every such union.
  \<open>Union[bytes, None]\<close> has a branch that is neither the marker nor a primitive, and
  compiling that branch raises the \<open>ValueError\<close> of line 76.
\<close>

theorem union_unsupported_branch_counterexample:
  "create_schema_object_from_annotation (Union [Other, NoneType]) =
     Inl (ValueError_unsupported Other)"
  by simp

text \<open>
  Nor does it return for \<open>Optional[Literal["a"]]\<close>: the schema of the branch,
  \<open>{"enum": ["a"]}\<close>, replaces the one holding the \<open>type\<close> list, and line 65 reads
  \<open>schema_object["type"]\<close>.
\<close>

lemma union_optional_literal_key_error:
  "create_schema_object_from_annotation (Union [Literal [JStr ''a''], NoneType]) = Inl KeyError"
  by (simp add: collapse_type_def)

text \<open>
  Nor for \<open>Optional[Annotated[int, {"description": "d"}]]\<close>: the test
  \<open>arg in type_dict_\<close> of line 61 hashes the branch, and an \<open>Annotated\<close> with a
  dictionary of metadata is unhashable, although the branch compiles on its own.
\<close>

lemma union_optional_annotated_type_error:
  "create_schema_object_from_annotation (Annotated TInt [(''description'', JStr ''d'')]) =
     Inr ([(''type'', JStr ''number''), (''description'', JStr ''d'')], False) \<and>
   create_schema_object_from_annotation
     (Union [Annotated TInt [(''description'', JStr ''d'')], NoneType]) = Inl TypeError"
  by simp

text \<open>
  C3, amended: let \<open>b\<close> be a branch that is neither the marker nor a primitive, that is
  hashable (it holds no \<open>Annotated\<close> with a dictionary of metadata), and that is
  followed only by absence markers. If the branches before \<open>b\<close> are processed without
  an exception, \<open>b\<close> compiles to \<open>(sb, rb)\<close>, and \<open>sb\<close> has a \<open>type\<close> entry that is a
  string or a list, then the function returns: the schema is \<open>sb\<close>, with nothing of the
  earlier branches in it, its \<open>type\<close> entry replaced by its only element when it is a
  list of exactly one element; the verdict is \<open>rb\<close>, or \<open>False\<close> when a marker follows.
\<close>

theorem union_last_branch_replaces:
  assumes args: "args = pre @ b # post"
      and b: "b \<noteq> NoneType" "type_dict b = None" "hashable b"
      and post: "\<forall>a\<in>set post. a = NoneType"
      and pre: "union_loop pre ([(''type'', JList [])], False) = Inr st"
      and cb: "create_schema_object_from_annotation b = Inr (sb, rb)"
      and ty: "map_of sb ''type'' = Some t" "(\<exists>s. t = JStr s) \<or> (\<exists>ts. t = JList ts)"
  shows "create_schema_object_from_annotation (Union args) =
           Inr (case t of
                  JList ts \<Rightarrow> if length ts = 1 then dict_set ''type'' (hd ts) sb else sb
                | _ \<Rightarrow> sb,
                if post = [] then rb else False)"
proof -
  obtain s0 r0 where st: "st = (s0, r0)" by (cases st)
  have "union_loop (b # post) (s0, r0) = union_loop post (sb, rb)"
    using b cb by simp
  also have "\<dots> = Inr (sb, if post = [] then rb else False)"
    by (rule union_loop_markers [OF post])
  finally have "union_loop args ([(''type'', JList [])], False) =
      Inr (sb, if post = [] then rb else False)"
    unfolding args union_loop_append pre st by simp
  then show ?thesis
    by (simp add: collapse_type_entry [OF ty])
qed

text \<open>
  Witness for C3: \<open>Union[int, List[str], None]\<close>. The \<open>type\<close> list \<open>["number"]\<close> built
  for the first branch is gone from the result.
\<close>

theorem union_last_branch_replaces_witness:
  "[TInt, ListOf TStr, NoneType] = [TInt] @ ListOf TStr # [NoneType] \<and>
   ListOf TStr \<noteq> NoneType \<and> type_dict (ListOf TStr) = None \<and> hashable (ListOf TStr) \<and>
   list_all (\<lambda>a. a = NoneType) [NoneType] \<and>
   union_loop [TInt] ([(''type'', JList [])], False) =
     Inr ([(''type'', JList [JStr ''number''])], False) \<and>
   create_schema_object_from_annotation (ListOf TStr) =
     Inr ([(''type'', JStr ''array''), (''items'', JObj [(''type'', JStr ''string'')])], True) \<and>
   map_of [(''type'', JStr ''array''), (''items'', JObj [(''type'', JStr ''string'')])] ''type''
     = Some (JStr ''array'') \<and>
   ((\<exists>s. JStr ''array'' = JStr s) \<or> (\<exists>ts. JStr ''array'' = JList ts)) \<and>
   create_schema_object_from_annotation (Union [TInt, ListOf TStr, NoneType]) =
     Inr ([(''type'', JStr ''array''), (''items'', JObj [(''type'', JStr ''string'')])], False)"
proof -
  have a: "[TInt, ListOf TStr, NoneType] = [TInt] @ ListOf TStr # [NoneType]" by simp
  have b1: "ListOf TStr \<noteq> NoneType" by simp
  have b2: "type_dict (ListOf TStr) = None" by simp
  have b3: "hashable (ListOf TStr)" by simp
  have p: "\<forall>a\<in>set [NoneType]. a = NoneType" by simp
  have l: "union_loop [TInt] ([(''type'', JList [])], False) =
             Inr ([(''type'', JList [JStr ''number''])], False)"
    by (simp add: type_append_def)
  have c: "create_schema_object_from_annotation (ListOf TStr) =
     Inr ([(''type'', JStr ''array''), (''items'', JObj [(''type'', JStr ''string'')])], True)"
    by simp
  have m: "map_of [(''type'', JStr ''array''), (''items'', JObj [(''type'', JStr ''string'')])]
             ''type'' = Some (JStr ''array'')" by simp
  have t: "(\<exists>s. JStr ''array'' = JStr s) \<or> (\<exists>ts. JStr ''array'' = JList ts)" by simp
  have r: "create_schema_object_from_annotation (Union [TInt, ListOf TStr, NoneType]) =
     Inr ([(''type'', JStr ''array''), (''items'', JObj [(''type'', JStr ''string'')])], False)"
    using union_last_branch_replaces [OF a b1 b2 b3 p l c m t] by simp
  from a b1 b2 b3 p l c m t r show ?thesis by (simp only: list_all_iff simp_thms)
qed

text \<open>
  C4, as stated, fails: line 62 appends without a membership check, so
  \<open>Union[int, float]\<close> compiles to \<open>{"type": ["number", "number"]}\<close>.
\<close>

theorem union_int_float_counterexample:
  "create_schema_object_from_annotation (Union [TInt, TFloat]) =
     Inr ([(''type'', JList [JStr ''number'', JStr ''number''])], False)"
  by (simp add: type_append_def collapse_type_def)

text \<open>
  C4, amended: for every \<open>Union\<close> whose branches are primitives or absence markers, the
  \<open>type\<close> list holds one name for each primitive branch, in branch order and with
  repetitions; a list of exactly one name is then replaced by that name.
\<close>

theorem union_primitive_names_appended:
  assumes "\<forall>a\<in>set args. a = NoneType \<or> type_dict a \<noteq> None"
  shows "create_schema_object_from_annotation (Union args) =
           Inr ([(''type'',
                  let ts = map JStr (List.map_filter type_dict args)
                  in if length ts = 1 then hd ts else JList ts)], False)"
  by (simp add: union_of_primitives [OF assms] collapse_type_list Let_def)

text \<open>Witness for C4: \<open>Union[int, float, None, str]\<close>.\<close>

theorem union_primitive_names_appended_witness:
  "list_all (\<lambda>a. a = NoneType \<or> type_dict a \<noteq> None) [TInt, TFloat, NoneType, TStr] \<and>
   create_schema_object_from_annotation (Union [TInt, TFloat, NoneType, TStr]) =
     Inr ([(''type'', JList [JStr ''number'', JStr ''number'', JStr ''string''])], False)"
proof -
  have h: "\<forall>a\<in>set [TInt, TFloat, NoneType, TStr]. a = NoneType \<or> type_dict a \<noteq> None"
    by simp
  have "create_schema_object_from_annotation (Union [TInt, TFloat, NoneType, TStr]) =
     Inr ([(''type'', JList [JStr ''number'', JStr ''number'', JStr ''string''])], False)"
    using union_primitive_names_appended [OF h] by simp
  with h show ?thesis by (simp only: list_all_iff simp_thms)
qed

section \<open>Claims about records\<close>

text \<open>
  C8: for every non-empty record with distinct field names that compiles, every name in
  the \<open>required\<close> list of the schema is a key of its \<open>properties\<close>, and the name of a
  field is in \<open>required\<close> exactly when compiling the field's annotation returned the
  verdict \<open>True\<close>.
\<close>

theorem record_required_names:
  assumes ne: "fs \<noteq> []"
      and keys: "distinct (map fst fs)"
      and c: "create_schema_object_from_annotation (Dict fs) = Inr (schema, required)"
  shows "\<exists>properties req_list.
           map_of schema ''properties'' = Some (JObj properties) \<and>
           map_of schema ''required'' = Some (JList (map JStr req_list)) \<and>
           set req_list \<subseteq> fst ` set properties \<and>
           (\<forall>(key, child_annotation) \<in> set fs.
              key \<in> set req_list \<longleftrightarrow>
              (\<exists>s. create_schema_object_from_annotation child_annotation = Inr (s, True)))"
proof -
  from dict_compile_shape [OF c ne] obtain properties req_list where
    l: "dict_loop fs ([], [], False) = Inr (properties, req_list, required)" and
    s: "schema = [(''type'', JStr ''object''), (''properties'', JObj properties),
                   (''required'', JList (map JStr req_list))]"
    by blast
  have rl: "req_list = map fst (filter
      (\<lambda>(k, c). \<exists>s. create_schema_object_from_annotation c = Inr (s, True)) fs)"
    using dict_loop_required [OF l] by simp
  have ks: "fst ` set properties = fst ` set fs"
    using dict_loop_keys [OF l] by simp
  have sub: "set req_list \<subseteq> fst ` set properties"
    unfolding ks by (auto simp: rl intro: rev_image_eqI)
  have iff: "\<forall>(key, child_annotation) \<in> set fs.
              key \<in> set req_list \<longleftrightarrow>
              (\<exists>s. create_schema_object_from_annotation child_annotation = Inr (s, True))"
  proof (intro ballI, clarify)
    fix key child_annotation
    assume mem: "(key, child_annotation) \<in> set fs"
    show "key \<in> set req_list \<longleftrightarrow>
            (\<exists>s. create_schema_object_from_annotation child_annotation = Inr (s, True))"
    proof
      assume "key \<in> set req_list"
      then obtain c' s where kc: "(key, c') \<in> set fs"
        and cs: "create_schema_object_from_annotation c' = Inr (s, True)"
        by (auto simp: rl)
      from keys kc mem have "c' = child_annotation" by (meson eq_key_imp_eq_value)
      with cs show "\<exists>s. create_schema_object_from_annotation child_annotation = Inr (s, True)"
        by blast
    next
      assume "\<exists>s. create_schema_object_from_annotation child_annotation = Inr (s, True)"
      with mem show "key \<in> set req_list" by (force simp: rl)
    qed
  qed
  from s sub iff show ?thesis by auto
qed

text \<open>
  Witness for C8: the record \<open>{"a": str, "b": Union[int, str]}\<close>, whose \<open>required\<close>
  list is \<open>["a"]\<close>.
\<close>

theorem record_required_names_witness:
  "[(''a'', TStr), (''b'', Union [TInt, TStr])] \<noteq> [] \<and>
   distinct (map fst [(''a'', TStr), (''b'', Union [TInt, TStr])]) \<and>
   create_schema_object_from_annotation (Dict [(''a'', TStr), (''b'', Union [TInt, TStr])]) =
     Inr ([(''type'', JStr ''object''),
           (''properties'', JObj [(''a'', JObj [(''type'', JStr ''string'')]),
                                  (''b'', JObj [(''type'', JList [JStr ''number'', JStr ''string''])])]),
           (''required'', JList [JStr ''a''])], False) \<and>
   (\<exists>properties req_list.
      map_of [(''type'', JStr ''object''),
              (''properties'', JObj [(''a'', JObj [(''type'', JStr ''string'')]),
                                     (''b'', JObj [(''type'', JList [JStr ''number'', JStr ''string''])])]),
              (''required'', JList [JStr ''a''])] ''properties'' = Some (JObj properties) \<and>
      map_of [(''type'', JStr ''object''),
              (''properties'', JObj [(''a'', JObj [(''type'', JStr ''string'')]),
                                     (''b'', JObj [(''type'', JList [JStr ''number'', JStr ''string''])])]),
              (''required'', JList [JStr ''a''])] ''required'' = Some (JList (map JStr req_list)) \<and>
      set req_list \<subseteq> fst ` set properties \<and>
      (\<forall>(key, child_annotation) \<in> set [(''a'', TStr), (''b'', Union [TInt, TStr])].
         key \<in> set req_list \<longleftrightarrow>
         (\<exists>s. create_schema_object_from_annotation child_annotation = Inr (s, True))))"
proof -
  have n: "[(''a'', TStr), (''b'', Union [TInt, TStr])] \<noteq> []" by simp
  have d: "distinct (map fst [(''a'', TStr), (''b'', Union [TInt, TStr])])" by simp
  have c: "create_schema_object_from_annotation
             (Dict [(''a'', TStr), (''b'', Union [TInt, TStr])]) =
     Inr ([(''type'', JStr ''object''),
           (''properties'', JObj [(''a'', JObj [(''type'', JStr ''string'')]),
                                  (''b'', JObj [(''type'', JList [JStr ''number'', JStr ''string''])])]),
           (''required'', JList [JStr ''a''])], False)"
    by (simp add: type_append_def collapse_type_def)
  from record_required_names [OF n d c] n d c show ?thesis by (intro conjI)
qed

text \<open>
  C9: the verdict a non-empty record compiles with is the verdict its last field's
  annotation compiles with.
\<close>

theorem record_required_is_last_field:
  assumes "fs \<noteq> []"
      and "create_schema_object_from_annotation (Dict fs) = Inr (schema, required)"
  shows "\<exists>s. create_schema_object_from_annotation (snd (last fs)) = Inr (s, required)"
proof -
  from dict_compile_shape [OF assms(2,1)] obtain properties req_list where
    "dict_loop fs ([], [], False) = Inr (properties, req_list, required)" by blast
  from dict_loop_last [OF this assms(1)] show ?thesis .
qed

text \<open>
  Witness for C9: the record \<open>{"a": str, "b": Union[int, str]}\<close> has a required
  field and compiles with the verdict \<open>False\<close> of its last field.
\<close>

theorem record_required_is_last_field_witness:
  "[(''a'', TStr), (''b'', Union [TInt, TStr])] \<noteq> [] \<and>
   create_schema_object_from_annotation (Dict [(''a'', TStr), (''b'', Union [TInt, TStr])]) =
     Inr ([(''type'', JStr ''object''),
           (''properties'', JObj [(''a'', JObj [(''type'', JStr ''string'')]),
                                  (''b'', JObj [(''type'', JList [JStr ''number'', JStr ''string''])])]),
           (''required'', JList [JStr ''a''])], False) \<and>
   (\<exists>s. create_schema_object_from_annotation
          (snd (last [(''a'', TStr), (''b'', Union [TInt, TStr])])) = Inr (s, False))"
proof -
  have n: "[(''a'', TStr), (''b'', Union [TInt, TStr])] \<noteq> []" by simp
  have c: "create_schema_object_from_annotation
             (Dict [(''a'', TStr), (''b'', Union [TInt, TStr])]) =
     Inr ([(''type'', JStr ''object''),
           (''properties'', JObj [(''a'', JObj [(''type'', JStr ''string'')]),
                                  (''b'', JObj [(''type'', JList [JStr ''number'', JStr ''string''])])]),
           (''required'', JList [JStr ''a''])], False)"
    by (simp add: type_append_def collapse_type_def)
  from record_required_is_last_field [OF n c] n c show ?thesis by (intro conjI)
qed

text \<open>
  C10: a \<open>Union\<close> whose branches are all primitives compiles, with the verdict \<open>False\<close>;
  so the name of a field with such an annotation is not in the \<open>required\<close> list of the
  record that holds it.
\<close>

theorem primitive_union_not_required:
  assumes "\<forall>a\<in>set args. type_dict a \<noteq> None"
  shows "(\<exists>s. create_schema_object_from_annotation (Union args) = Inr (s, False)) \<and>
         ((k, Union args) \<in> set fs \<longrightarrow> distinct (map fst fs) \<longrightarrow>
            create_schema_object_from_annotation (Dict fs) = Inr (schema, r) \<longrightarrow>
            map_of schema ''required'' = Some (JList req) \<longrightarrow> JStr k \<notin> set req)"
proof
  have p: "\<forall>a\<in>set args. a = NoneType \<or> type_dict a \<noteq> None" using assms by blast
  show u: "\<exists>s. create_schema_object_from_annotation (Union args) = Inr (s, False)"
    by (simp add: union_of_primitives [OF p] collapse_type_list)
  show "(k, Union args) \<in> set fs \<longrightarrow> distinct (map fst fs) \<longrightarrow>
            create_schema_object_from_annotation (Dict fs) = Inr (schema, r) \<longrightarrow>
            map_of schema ''required'' = Some (JList req) \<longrightarrow> JStr k \<notin> set req"
  proof (intro impI)
    assume mem: "(k, Union args) \<in> set fs" and d: "distinct (map fst fs)"
      and c: "create_schema_object_from_annotation (Dict fs) = Inr (schema, r)"
      and m: "map_of schema ''required'' = Some (JList req)"
    from mem have ne: "fs \<noteq> []" by auto
    from dict_compile_shape [OF c ne] obtain properties req_list where
      l: "dict_loop fs ([], [], False) = Inr (properties, req_list, r)" and
      s: "schema = [(''type'', JStr ''object''), (''properties'', JObj properties),
                     (''required'', JList (map JStr req_list))]"
      by blast
    from m s have req: "req = map JStr req_list" by simp
    have rl: "req_list = map fst (filter
        (\<lambda>(k, c). \<exists>s. create_schema_object_from_annotation c = Inr (s, True)) fs)"
      using dict_loop_required [OF l] by simp
    show "JStr k \<notin> set req"
    proof
      assume "JStr k \<in> set req"
      then have "k \<in> set req_list" by (auto simp: req)
      then obtain c s where kc: "(k, c) \<in> set fs"
        and cs: "create_schema_object_from_annotation c = Inr (s, True)"
        by (auto simp: rl)
      from d kc mem have "c = Union args" by (meson eq_key_imp_eq_value)
      with cs u show False by auto
    qed
  qed
qed

text \<open>
  Witness for C10: \<open>Union[int, str]\<close>, as the field \<open>b\<close> of the record
  \<open>{"a": str, "b": Union[int, str]}\<close>.
\<close>

theorem primitive_union_not_required_witness:
  "list_all (\<lambda>a. type_dict a \<noteq> None) [TInt, TStr] \<and>
   (\<exists>s. create_schema_object_from_annotation (Union [TInt, TStr]) = Inr (s, False)) \<and>
   (''b'', Union [TInt, TStr]) \<in> set [(''a'', TStr), (''b'', Union [TInt, TStr])] \<and>
   distinct (map fst [(''a'', TStr), (''b'', Union [TInt, TStr])]) \<and>
   create_schema_object_from_annotation (Dict [(''a'', TStr), (''b'', Union [TInt, TStr])]) =
     Inr ([(''type'', JStr ''object''),
           (''properties'', JObj [(''a'', JObj [(''type'', JStr ''string'')]),
                                  (''b'', JObj [(''type'', JList [JStr ''number'', JStr ''string''])])]),
           (''required'', JList [JStr ''a''])], False) \<and>
   map_of [(''type'', JStr ''object''),
           (''properties'', JObj [(''a'', JObj [(''type'', JStr ''string'')]),
                                  (''b'', JObj [(''type'', JList [JStr ''number'', JStr ''string''])])]),
           (''required'', JList [JStr ''a''])] ''required'' = Some (JList [JStr ''a'']) \<and>
   JStr ''b'' \<notin> set [JStr ''a'']"
proof -
  have h: "\<forall>a\<in>set [TInt, TStr]. type_dict a \<noteq> None" by simp
  have mem: "(''b'', Union [TInt, TStr]) \<in> set [(''a'', TStr), (''b'', Union [TInt, TStr])]"
    by simp
  have d: "distinct (map fst [(''a'', TStr), (''b'', Union [TInt, TStr])])" by simp
  have c: "create_schema_object_from_annotation
             (Dict [(''a'', TStr), (''b'', Union [TInt, TStr])]) =
     Inr ([(''type'', JStr ''object''),
           (''properties'', JObj [(''a'', JObj [(''type'', JStr ''string'')]),
                                  (''b'', JObj [(''type'', JList [JStr ''number'', JStr ''string''])])]),
           (''required'', JList [JStr ''a''])], False)"
    by (simp add: type_append_def collapse_type_def)
  have m: "map_of [(''type'', JStr ''object''),
           (''properties'', JObj [(''a'', JObj [(''type'', JStr ''string'')]),
                                  (''b'', JObj [(''type'', JList [JStr ''number'', JStr ''string''])])]),
           (''required'', JList [JStr ''a''])] ''required'' = Some (JList [JStr ''a''])"
    by simp
  note t = primitive_union_not_required [OF h, of "''b''"
      "[(''a'', TStr), (''b'', Union [TInt, TStr])]" _ False "[JStr ''a'']"]
  from t have e: "\<exists>s. create_schema_object_from_annotation (Union [TInt, TStr]) = Inr (s, False)"
    by (rule conjunct1)
  from t mem d c m have r: "JStr ''b'' \<notin> set [JStr ''a'']" by blast
  from h e mem d c m r show ?thesis by (simp only: list_all_iff simp_thms)
qed

section \<open>Claims about the function descriptor and the front-ends\<close>

text \<open>
  C5: for an operation with the parameters \<open>a: str\<close> and \<open>b: int = 0\<close> (or
  \<open>b: float = 0\<close>), \<open>get_args_json_schema\<close> returns exactly
  \<open>{"type": "object", "properties": {"a": {"type": "string"},
  "b": {"type": "number", "default": 0}}, "required": ["a"]}\<close>: the default is put into
  the sub-schema of \<open>b\<close>, and \<open>b\<close> is taken out of the \<open>required\<close> list the compiler
  had put it in.
\<close>

theorem args_schema_default_patch:
  "get_args_json_schema
     \<lparr>func = f, signature_parameters = [(''a'', TStr, None), (''b'', TInt, Some (JInt 0))],
      description = d, validate_schema = v, command_line_function = c\<rparr> =
   Inr [(''type'', JStr ''object''),
        (''properties'', JObj [(''a'', JObj [(''type'', JStr ''string'')]),
                               (''b'', JObj [(''type'', JStr ''number''), (''default'', JInt 0)])]),
        (''required'', JList [JStr ''a''])] \<and>
   get_args_json_schema
     \<lparr>func = f, signature_parameters = [(''a'', TStr, None), (''b'', TFloat, Some (JInt 0))],
      description = d, validate_schema = v, command_line_function = c\<rparr> =
   Inr [(''type'', JStr ''object''),
        (''properties'', JObj [(''a'', JObj [(''type'', JStr ''string'')]),
                               (''b'', JObj [(''type'', JStr ''number''), (''default'', JInt 0)])]),
        (''required'', JList [JStr ''a''])]"
  by (simp add: get_args_json_schema_def default_patch_def)

text \<open>
  C6 fails on the command-line front-end. With \<open>add(x: int, y: int)\<close> registered with
  \<open>validate_schema=True\<close> and, after it, \<open>ping()\<close> registered with
  \<open>validate_schema=False\<close>, the command line \<open>add '{"x": "2", "y": 3}'\<close> calls \<open>add\<close>
  with these arguments, whatever the validator answers: when \<open>parse_args\<close> runs the
  converter, the variables \<open>function_descriptor\<close> and \<open>args_json_schema\<close> it reads
  are those of \<open>ping\<close>, the last round of the loop.
\<close>

theorem exec_validates_against_last_function:
  "exec validate
     [(''add'', \<lparr>func = f, signature_parameters = [(''x'', TInt, None), (''y'', TInt, None)],
                 description = d1, validate_schema = True, command_line_function = True\<rparr>),
      (''ping'', \<lparr>func = g, signature_parameters = [],
                  description = d2, validate_schema = False, command_line_function = True\<rparr>)]
     ''add'' (Some (JObj [(''x'', JStr ''2''), (''y'', JInt 3)])) =
   ([Keywords [(''x'', JStr ''2''), (''y'', JInt 3)]],
    f (Keywords [(''x'', JStr ''2''), (''y'', JInt 3)]))"
  by (simp add: exec_def parse_args_def json_or_json_file_def get_function_descriptor_def
      has_args_def get_args_json_schema_def call_expanded_def call_function_def)

text \<open>
  C7, as stated, fails on the command-line front-end, which never consults \<open>has_args\<close>
  at the call (line 179): for \<open>identity_x(x: int = 0)\<close>, \<open>has_args\<close> is false, and the
  command line \<open>identity_x --args '{"x": 5}'\<close> calls \<open>identity_x(x=5)\<close>.
\<close>

theorem exec_passes_payload_counterexample:
  "has_args \<lparr>func = identity_x, signature_parameters = [(''x'', TInt, Some (JInt 0))],
             description = ''identity'', validate_schema = False,
             command_line_function = True\<rparr> = Inr False \<and>
   exec accept_all
     [(''identity_x'',
       \<lparr>func = identity_x, signature_parameters = [(''x'', TInt, Some (JInt 0))],
        description = ''identity'', validate_schema = False, command_line_function = True\<rparr>)]
     ''identity_x'' (Some (JObj [(''x'', JInt 5)])) =
   ([Keywords [(''x'', JInt 5)]], Inr (JInt 5))"
  by (simp add: exec_def parse_args_def json_or_json_file_def get_function_descriptor_def
      has_args_def get_args_json_schema_def default_patch_def call_expanded_def call_function_def)

text \<open>
  C7, amended. HTTP end point: when validation is off or the validator accepts the
  payload, an operation for which \<open>has_args\<close> is false is called with no arguments and
  the payload, whatever it is, is ignored; one for which \<open>has_args\<close> is true is called
  with the fields of the payload object as named arguments. Command line, for a shell
  with distinct names whose schemas all compile: an operation for which \<open>has_args\<close> is
  false and no \<open>--args\<close> is given is called with no arguments; a payload object that
  the converter accepts is expanded as named arguments, whether \<open>has_args\<close> is true or
  false.
\<close>

theorem dispatch_arguments:
  "(has_args fd = Inr False \<longrightarrow>
      (validate_schema fd \<longrightarrow>
         (\<forall>schema. get_args_json_schema fd = Inr schema \<longrightarrow>
                   validate json_args schema = None)) \<longrightarrow>
      flask_end_point validate fd json_args = ([NoArguments], func fd NoArguments)) \<and>
   (has_args fd = Inr True \<longrightarrow>
      (validate_schema fd \<longrightarrow>
         (\<forall>schema. get_args_json_schema fd = Inr schema \<longrightarrow>
                   validate (JObj kwargs) schema = None)) \<longrightarrow>
      flask_end_point validate fd (JObj kwargs) =
        ([Keywords kwargs], func fd (Keywords kwargs))) \<and>
   (exec_loop shell_functions ([], None) = Inr (parsers, closure_vars) \<longrightarrow>
      distinct (map fst shell_functions) \<longrightarrow> (function_name, fd) \<in> set shell_functions \<longrightarrow>
      (has_args fd = Inr False \<longrightarrow>
         exec validate shell_functions function_name None = ([NoArguments], func fd NoArguments)) \<and>
      (json_or_json_file validate closure_vars (JObj kwargs) = Inr (JObj kwargs) \<longrightarrow>
         exec validate shell_functions function_name (Some (JObj kwargs)) =
           ([Keywords kwargs], func fd (Keywords kwargs))))"
proof (intro conjI impI)
  assume h: "has_args fd = Inr False"
    and v: "validate_schema fd \<longrightarrow>
         (\<forall>schema. get_args_json_schema fd = Inr schema \<longrightarrow> validate json_args schema = None)"
  have "flask_end_point validate fd json_args = flask_invoke fd json_args"
    using v h by (rule flask_end_point_valid)
  with h show "flask_end_point validate fd json_args = ([NoArguments], func fd NoArguments)"
    by (simp add: flask_invoke_def call_function_def)
next
  assume h: "has_args fd = Inr True"
    and v: "validate_schema fd \<longrightarrow>
         (\<forall>schema. get_args_json_schema fd = Inr schema \<longrightarrow>
                   validate (JObj kwargs) schema = None)"
  have "flask_end_point validate fd (JObj kwargs) = flask_invoke fd (JObj kwargs)"
    using v h by (rule flask_end_point_valid)
  with h show "flask_end_point validate fd (JObj kwargs) =
      ([Keywords kwargs], func fd (Keywords kwargs))"
    by (simp add: flask_invoke_def call_expanded_def call_function_def)
next
  assume "exec_loop shell_functions ([], None) = Inr (parsers, closure_vars)"
    "distinct (map fst shell_functions)" "(function_name, fd) \<in> set shell_functions"
    "has_args fd = Inr False"
  then show "exec validate shell_functions function_name None = ([NoArguments], func fd NoArguments)"
    by (rule exec_no_payload)
next
  assume "exec_loop shell_functions ([], None) = Inr (parsers, closure_vars)"
    "distinct (map fst shell_functions)" "(function_name, fd) \<in> set shell_functions"
    "json_or_json_file validate closure_vars (JObj kwargs) = Inr (JObj kwargs)"
  then show "exec validate shell_functions function_name (Some (JObj kwargs)) =
           ([Keywords kwargs], func fd (Keywords kwargs))"
    by (rule exec_payload)
qed

text \<open>
  Witness for C7: \<open>identity_x(x: int = 0)\<close> behind the HTTP end point with the payload
  \<open>{"x": 5}\<close>, which is ignored, and on the command line without and with
  \<open>--args '{"x": 5}'\<close>; and
  \<open>required_x(x: int)\<close> behind the HTTP end point with the payload \<open>{"x": 5}\<close>.
\<close>

theorem dispatch_arguments_witness:
  "has_args optional_x_descriptor = Inr False \<and>
   flask_end_point accept_all optional_x_descriptor (JObj [(''x'', JInt 5)]) =
     ([NoArguments], Inr (JInt 0)) \<and>
   has_args required_x_descriptor = Inr True \<and>
   flask_end_point accept_all required_x_descriptor (JObj [(''x'', JInt 5)]) =
     ([Keywords [(''x'', JInt 5)]], Inr (JInt 5)) \<and>
   exec_loop [(''identity_x'', optional_x_descriptor)] ([], None) =
     Inr ([(''identity_x'', False)],
          Some (optional_x_descriptor,
                [(''type'', JStr ''object''),
                 (''properties'', JObj [(''x'', JObj [(''type'', JStr ''number''),
                                                      (''default'', JInt 0)])]),
                 (''required'', JList [])])) \<and>
   exec accept_all [(''identity_x'', optional_x_descriptor)] ''identity_x'' None =
     ([NoArguments], Inr (JInt 0)) \<and>
   exec accept_all [(''identity_x'', optional_x_descriptor)] ''identity_x''
       (Some (JObj [(''x'', JInt 5)])) =
     ([Keywords [(''x'', JInt 5)]], Inr (JInt 5))"
proof -
  let ?schema = "[(''type'', JStr ''object''),
                  (''properties'', JObj [(''x'', JObj [(''type'', JStr ''number''),
                                                       (''default'', JInt 0)])]),
                  (''required'', JList [])]"
  let ?cv = "Some (optional_x_descriptor, ?schema)"
  let ?fs = "[(''identity_x'', optional_x_descriptor)]"
  have g0: "get_args_json_schema optional_x_descriptor = Inr ?schema"
    by (simp add: get_args_json_schema_def default_patch_def optional_x_descriptor_def)
  have h0: "has_args optional_x_descriptor = Inr False"
    by (simp add: has_args_def g0)
  have h1: "has_args required_x_descriptor = Inr True"
    by (simp add: has_args_def get_args_json_schema_def required_x_descriptor_def)
  have v0: "validate_schema optional_x_descriptor \<longrightarrow>
      (\<forall>schema. get_args_json_schema optional_x_descriptor = Inr schema \<longrightarrow>
                accept_all (JObj [(''x'', JInt 5)]) schema = None)"
    by (simp add: accept_all_def)
  have v1: "validate_schema required_x_descriptor \<longrightarrow>
      (\<forall>schema. get_args_json_schema required_x_descriptor = Inr schema \<longrightarrow>
                accept_all (JObj [(''x'', JInt 5)]) schema = None)"
    by (simp add: accept_all_def)
  have l: "exec_loop ?fs ([], None) = Inr ([(''identity_x'', False)], ?cv)"
    by (simp add: g0 h0)
  have d: "distinct (map fst ?fs)" by simp
  have m: "(''identity_x'', optional_x_descriptor) \<in> set ?fs" by simp
  have j: "json_or_json_file accept_all ?cv (JObj [(''x'', JInt 5)]) = Inr (JObj [(''x'', JInt 5)])"
    by (simp add: json_or_json_file_def accept_all_def)
  have n0: "func optional_x_descriptor NoArguments = Inr (JInt 0)"
    by (simp add: optional_x_descriptor_def)
  have k0: "func optional_x_descriptor (Keywords [(''x'', JInt 5)]) = Inr (JInt 5)"
    by (simp add: optional_x_descriptor_def)
  have k1: "func required_x_descriptor (Keywords [(''x'', JInt 5)]) = Inr (JInt 5)"
    by (simp add: required_x_descriptor_def)
  note t0 = dispatch_arguments [where fd = optional_x_descriptor and validate = accept_all
      and json_args = "JObj [(''x'', JInt 5)]" and kwargs = "[(''x'', JInt 5)]" and shell_functions = ?fs
      and parsers = "[(''identity_x'', False)]" and closure_vars = ?cv
      and function_name = "''identity_x''"]
  note t1 = dispatch_arguments [where fd = required_x_descriptor and validate = accept_all
      and kwargs = "[(''x'', JInt 5)]"]
  from t0 h0 v0 have f0: "flask_end_point accept_all optional_x_descriptor
      (JObj [(''x'', JInt 5)]) =
      ([NoArguments], func optional_x_descriptor NoArguments)"
    by blast
  from t1 h1 v1 have f1: "flask_end_point accept_all required_x_descriptor
      (JObj [(''x'', JInt 5)]) =
      ([Keywords [(''x'', JInt 5)]], func required_x_descriptor (Keywords [(''x'', JInt 5)]))"
    by blast
  from t0 l d m h0 have e0: "exec accept_all ?fs ''identity_x'' None =
      ([NoArguments], func optional_x_descriptor NoArguments)"
    by blast
  from t0 l d m j have e1: "exec accept_all ?fs ''identity_x'' (Some (JObj [(''x'', JInt 5)])) =
      ([Keywords [(''x'', JInt 5)]], func optional_x_descriptor (Keywords [(''x'', JInt 5)]))"
    by blast
  from h0 f0 h1 f1 l e0 e1 show ?thesis
    unfolding n0 k0 k1 by (intro conjI)
qed

end
